theory Spec2Isabelle
  imports Main
begin

section \<open>The conference backend (src/conference\_backend.js)\<close>

text \<open>
  The backend is a set of Express handlers over a MySQL store. Each handler is modelled
  as a function from the request body and the store to the HTTP response and the new
  store. The external libraries the handlers call (bcrypt, qrcode, nodemailer) are
  parameters of the model, and each of them may reject, as a promise may.
\<close>

subsection \<open>Responses\<close>

text \<open>What \<^verbatim>\<open>res.status(n).json(v)\<close> sends: a status code and a JSON value.\<close>

datatype json =
    JNull
  | JNum int
  | JStr string
  | JArr "json list"
  | JObj "(string \<times> json) list"

record response =
  status :: nat
  body :: json

definition respond :: "nat \<Rightarrow> json \<Rightarrow> response" where
  "respond n v = \<lparr>status = n, body = v\<rparr>"

text \<open>Every key that occurs in a JSON value, at any depth.\<close>

primrec json_keys :: "json \<Rightarrow> string list" where
  "json_keys JNull = []"
| "json_keys (JNum n) = []"
| "json_keys (JStr s) = []"
| "json_keys (JArr vs) = concat (map json_keys vs)"
| "json_keys (JObj kvs) = concat (map (\<lambda>kv. fst kv # snd kv) (map (map_prod id json_keys) kvs))"

text \<open>The keys of an object itself.\<close>

fun object_keys :: "json \<Rightarrow> string list" where
  "object_keys (JObj kvs) = map fst kvs"
| "object_keys v = []"

text \<open>The member \<open>k\<close> of an object, \<open>JNull\<close> standing for JavaScript's undefined.\<close>

fun member :: "string \<Rightarrow> json \<Rightarrow> json" where
  "member k (JObj kvs) = (case map_of kvs k of Some v \<Rightarrow> v | None \<Rightarrow> JNull)"
| "member k v = JNull"

subsection \<open>The store\<close>

text \<open>
  The tables are those of \<^verbatim>\<open>initializeDatabase\<close> (lines 39--77), under the names the
  queries use, with the column \<^verbatim>\<open>password_hash\<close> that the queries of
  \<^verbatim>\<open>/register\<close> and \<^verbatim>\<open>/login\<close> read and write. A nullable column is an option.
  The column \<^verbatim>\<open>sessions_registered\<close> is declared JSON (line 46): it holds NULL or a
  JSON document. Rows are kept in insertion order.
\<close>

record participant =
  participant_id :: nat
  name :: string
  email :: string
  organization :: "string option"
  password_hash :: string
  qr_code :: string
  sessions_registered :: "json option"

record track_session =
  session_id :: nat
  track :: string
  session_name :: string
  speaker :: string
  time :: string
  venue :: string
  capacity :: int

record attendance_row =
  attendance_id :: nat
  att_participant_id :: nat
  att_session_id :: nat
  check_in_time :: "nat option"

record db =
  participants :: "participant list"
  tracks_sessions :: "track_session list"
  attendance :: "attendance_row list"
  participants_auto_increment :: nat
  attendance_auto_increment :: nat

subsection \<open>Check-in (lines 240--254)\<close>

text \<open>
  The handler awaits two statements. The first is
  \<^verbatim>\<open>SELECT capacity, (SELECT COUNT(*) FROM attendance WHERE session_id = ?) AS registered
  FROM tracks_sessions WHERE session_id = ?\<close>; the handler binds \<^verbatim>\<open>session\<close> to
  its first row, which is undefined when no session has the id.
\<close>

definition count_attendance :: "db \<Rightarrow> nat \<Rightarrow> nat" where
  "count_attendance d sid = length (filter (\<lambda>a. att_session_id a = sid) (attendance d))"

record session_view =
  view_capacity :: int
  view_registered :: int

definition select_session :: "db \<Rightarrow> nat \<Rightarrow> session_view option" where
  "select_session d sid =
     (case find (\<lambda>s. session_id s = sid) (tracks_sessions d) of
        None \<Rightarrow> None
      | Some s \<Rightarrow> Some \<lparr>view_capacity = capacity s,
                        view_registered = int (count_attendance d sid)\<rparr>)"

text \<open>
  The second statement is \<^verbatim>\<open>INSERT INTO attendance (participant_id, session_id)
  VALUES (?, ?)\<close>. The foreign keys of the table reject a row whose participant or
  session does not exist; \<^verbatim>\<open>check_in_time\<close> is not in the column list and has no
  default, so the new row holds NULL there.
\<close>

definition insert_attendance :: "nat \<Rightarrow> nat \<Rightarrow> db \<Rightarrow> db option" where
  "insert_attendance pid sid d =
     (if (\<exists>p \<in> set (participants d). participant_id p = pid) \<and>
         (\<exists>s \<in> set (tracks_sessions d). session_id s = sid)
      then Some (d\<lparr>attendance := attendance d @
                      [\<lparr>attendance_id = attendance_auto_increment d,
                        att_participant_id = pid, att_session_id = sid,
                        check_in_time = None\<rparr>],
                    attendance_auto_increment := Suc (attendance_auto_increment d)\<rparr>)
      else None)"

text \<open>The three responses of the handler.\<close>

definition session_full :: response where
  "session_full = respond 400 (JObj [(''error'', JStr ''Session is full'')])"

definition check_in_ok :: response where
  "check_in_ok = respond 200 (JObj [(''message'', JStr ''Check-in successful'')])"

definition check_in_error :: response where
  "check_in_error = respond 500 (JObj [(''error'', JStr ''Error during check-in'')])"

text \<open>
  What the handler does once the first statement has answered: a missing session makes
  \<^verbatim>\<open>session.registered\<close> throw, which the \<^verbatim>\<open>catch\<close> turns into status 500; a full
  session is status 400; otherwise the row is inserted.
\<close>

definition check_in_commit :: "session_view option \<Rightarrow> nat \<Rightarrow> nat \<Rightarrow> db \<Rightarrow> response \<times> db" where
  "check_in_commit v pid sid d =
     (case v of
        None \<Rightarrow> (check_in_error, d)
      | Some session \<Rightarrow>
          if view_registered session \<ge> view_capacity session
          then (session_full, d)
          else (case insert_attendance pid sid d of
                  None \<Rightarrow> (check_in_error, d)
                | Some d' \<Rightarrow> (check_in_ok, d')))"

text \<open>A request that runs alone: both statements against the same store.\<close>

definition check_in :: "nat \<Rightarrow> nat \<Rightarrow> db \<Rightarrow> response \<times> db" where
  "check_in pid sid d = check_in_commit (select_session d sid) pid sid d"

text \<open>A sequence of check-in requests, each served before the next one starts.\<close>

fun check_in_all :: "(nat \<times> nat) list \<Rightarrow> db \<Rightarrow> db" where
  "check_in_all [] d = d"
| "check_in_all ((pid, sid) # rs) d = check_in_all rs (snd (check_in pid sid d))"

text \<open>
  The handler gives control back at each \<^verbatim>\<open>await\<close>, so the statements of several
  requests in flight reach the store in any order. A request is between its two
  statements once the first has answered.
\<close>

datatype request =
    Received nat nat
  | Selected nat nat "session_view option"
  | Responded response

fun step_request :: "request \<Rightarrow> db \<Rightarrow> request \<times> db" where
  "step_request (Received pid sid) d = (Selected pid sid (select_session d sid), d)"
| "step_request (Selected pid sid v) d =
     (case check_in_commit v pid sid d of (r, d') \<Rightarrow> (Responded r, d'))"
| "step_request (Responded r) d = (Responded r, d)"

text \<open>A schedule names, statement by statement, the request whose statement runs next.\<close>

fun run_schedule :: "nat list \<Rightarrow> request list \<Rightarrow> db \<Rightarrow> request list \<times> db" where
  "run_schedule [] rs d = (rs, d)"
| "run_schedule (i # sched) rs d =
     (if i < length rs
      then (case step_request (rs ! i) d of (r', d') \<Rightarrow> run_schedule sched (rs[i := r']) d')
      else run_schedule sched rs d)"

text \<open>The capacity invariant: no session has more attendance rows than its capacity.\<close>

definition capacity_respected :: "db \<Rightarrow> bool" where
  "capacity_respected d =
     (\<forall>s \<in> set (tracks_sessions d). int (count_attendance d (session_id s)) \<le> capacity s)"

text \<open>The attendance rows of one participant in one session.\<close>

definition attendance_of :: "db \<Rightarrow> nat \<Rightarrow> nat \<Rightarrow> attendance_row list" where
  "attendance_of d pid sid =
     filter (\<lambda>a. att_participant_id a = pid \<and> att_session_id a = sid) (attendance d)"

subsection \<open>The external libraries\<close>

text \<open>
  \<^verbatim>\<open>bcrypt.hash\<close>, \<^verbatim>\<open>bcrypt.compare\<close> and \<^verbatim>\<open>QRCode.toDataURL\<close> answer or reject
  (\<open>None\<close>); \<^verbatim>\<open>transporter.sendMail\<close> delivers (\<open>True\<close>) or rejects.
\<close>

record mail =
  mail_to :: string
  mail_subject :: string
  mail_html :: string

record env =
  bcrypt_hash :: "string \<Rightarrow> string option"
  bcrypt_compare :: "string \<Rightarrow> string \<Rightarrow> bool option"
  toDataURL :: "string \<Rightarrow> string option"
  sendMail :: "mail \<Rightarrow> bool"

subsection \<open>Fetch all participants (lines 130--138)\<close>

text \<open>\<^verbatim>\<open>SELECT participant_id, name, email, sessions_registered FROM participants\<close>.\<close>

definition json_of_text :: "string option \<Rightarrow> json" where
  "json_of_text t = (case t of None \<Rightarrow> JNull | Some s \<Rightarrow> JStr s)"

text \<open>A JSON column reaches the handler as the document it holds.\<close>

definition json_of_document :: "json option \<Rightarrow> json" where
  "json_of_document col = (case col of None \<Rightarrow> JNull | Some v \<Rightarrow> v)"

definition participant_listed :: "participant \<Rightarrow> json" where
  "participant_listed p =
     JObj [(''participant_id'', JNum (int (participant_id p))),
           (''name'', JStr (name p)),
           (''email'', JStr (email p)),
           (''sessions_registered'', json_of_document (sessions_registered p))]"

definition get_participants :: "db \<Rightarrow> response" where
  "get_participants d = respond 200 (JArr (map participant_listed (participants d)))"

subsection \<open>Register participant (lines 184--206)\<close>

text \<open>
  \<^verbatim>\<open>INSERT INTO participants (name, email, password_hash, qr_code) VALUES (?, ?, ?, ?)\<close>:
  the columns \<^verbatim>\<open>email\<close> and \<^verbatim>\<open>QR_code\<close> are UNIQUE, so the statement fails when
  a row already holds either value. The columns left out are NULL. The result carries
  the new key as \<^verbatim>\<open>insertId\<close>.
\<close>

definition insert_participant :: "string \<Rightarrow> string \<Rightarrow> string \<Rightarrow> string \<Rightarrow> db \<Rightarrow> (nat \<times> db) option" where
  "insert_participant nm em hash qr d =
     (if (\<exists>p \<in> set (participants d). email p = em) \<or>
         (\<exists>p \<in> set (participants d). qr_code p = qr)
      then None
      else Some (participants_auto_increment d,
                 d\<lparr>participants := participants d @
                      [\<lparr>participant_id = participants_auto_increment d,
                        name = nm, email = em, organization = None,
                        password_hash = hash, qr_code = qr,
                        sessions_registered = None\<rparr>],
                   participants_auto_increment := Suc (participants_auto_increment d)\<rparr>))"

definition register_error :: response where
  "register_error = respond 500 (JObj [(''error'', JStr ''Error registering participant'')])"

definition register_ok :: "nat \<Rightarrow> response" where
  "register_ok insertId =
     respond 201 (JObj [(''message'', JStr ''Registration successful''),
                        (''participant_id'', JNum (int insertId))])"

definition qr_mail :: "string \<Rightarrow> string \<Rightarrow> mail" where
  "qr_mail em qrCode =
     \<lparr>mail_to = em,
      mail_subject = ''Your Conference Registration QR Code'',
      mail_html = ''<h1>Welcome to the Conference!</h1><p>Here is your QR Code:</p><img src=''
                  @ [CHR 0x22] @ qrCode @ [CHR 0x22] @ '' />''\<rparr>"

text \<open>
  The whole handler is one \<^verbatim>\<open>try\<close> block: a rejection of any of the four awaited
  calls ends in the same \<^verbatim>\<open>catch\<close>, which answers status 500.
\<close>

definition register :: "env \<Rightarrow> string \<Rightarrow> string \<Rightarrow> string \<Rightarrow> db \<Rightarrow> response \<times> db" where
  "register e nm em password d =
     (case bcrypt_hash e password of
        None \<Rightarrow> (register_error, d)
      | Some passwordHash \<Rightarrow>
          (case toDataURL e (nm @ [CHR 0x0A] @ em) of
             None \<Rightarrow> (register_error, d)
           | Some qrCode \<Rightarrow>
               (case insert_participant nm em passwordHash qrCode d of
                  None \<Rightarrow> (register_error, d)
                | Some (insertId, d') \<Rightarrow>
                    if sendMail e (qr_mail em qrCode)
                    then (register_ok insertId, d')
                    else (register_error, d'))))"

subsection \<open>Login (lines 209--224)\<close>

text \<open>
  \<^verbatim>\<open>SELECT * FROM participants WHERE email = ?\<close> and its first row. The row goes
  into the response as it is, every column of it.
\<close>

definition participant_row :: "participant \<Rightarrow> json" where
  "participant_row p =
     JObj [(''participant_id'', JNum (int (participant_id p))),
           (''name'', JStr (name p)),
           (''email'', JStr (email p)),
           (''organization'', json_of_text (organization p)),
           (''password_hash'', JStr (password_hash p)),
           (''QR_code'', JStr (qr_code p)),
           (''sessions_registered'', json_of_document (sessions_registered p))]"

definition invalid_credentials :: response where
  "invalid_credentials = respond 401 (JObj [(''error'', JStr ''Invalid email or password'')])"

definition login_error :: response where
  "login_error = respond 500 (JObj [(''error'', JStr ''Error during login'')])"

definition login_ok :: "participant \<Rightarrow> response" where
  "login_ok p = respond 200 (JObj [(''message'', JStr ''Login successful''),
                                   (''participant'', participant_row p)])"

text \<open>
  \<^verbatim>\<open>!participant || !(await bcrypt.compare(...))\<close>: the comparison runs only when a
  row was found; when it rejects, the \<^verbatim>\<open>catch\<close> answers status 500.
\<close>

definition login :: "env \<Rightarrow> string \<Rightarrow> string \<Rightarrow> db \<Rightarrow> response" where
  "login e em password d =
     (case find (\<lambda>p. email p = em) (participants d) of
        None \<Rightarrow> invalid_credentials
      | Some p \<Rightarrow>
          (case bcrypt_compare e password (password_hash p) of
             None \<Rightarrow> login_error
           | Some matches \<Rightarrow> if \<not> matches then invalid_credentials else login_ok p))"

subsection \<open>Register for a session (lines 227--237)\<close>

text \<open>The decimal text of a number, as \<^verbatim>\<open>CONCAT\<close> writes a numeric argument.\<close>

definition digit :: "nat \<Rightarrow> char" where
  "digit n = ''0123456789'' ! n"

fun decimal :: "nat \<Rightarrow> string" where
  "decimal n = (if n < 10 then [digit n] else decimal (n div 10) @ [digit (n mod 10)])"

declare decimal.simps [simp del]

text \<open>
  The JSON column is the store's own affair, so its two conversions are parameters:
  the text a document has as an argument of \<^verbatim>\<open>CONCAT\<close>, and the document a text
  is stored as, which is \<open>None\<close> when the text is not a JSON document and the store
  rejects the statement.
\<close>

record mysql =
  json_text :: "json \<Rightarrow> string"
  json_document :: "string \<Rightarrow> json option"

text \<open>
  \<^verbatim>\<open>UPDATE participants SET sessions_registered =
  IFNULL(CONCAT(sessions_registered, ?, ","), ?) WHERE participant_id = ?\<close> with the
  parameters \<^verbatim>\<open>[session_id, session_id, participant_id]\<close>. \<^verbatim>\<open>CONCAT\<close> is NULL when
  the column is NULL, and then \<^verbatim>\<open>IFNULL\<close> gives the session key; its result is text
  in both cases, and the column takes the document of that text.
\<close>

definition concat_session :: "mysql \<Rightarrow> json option \<Rightarrow> nat \<Rightarrow> string" where
  "concat_session m col sid =
     (case col of None \<Rightarrow> decimal sid | Some v \<Rightarrow> json_text m v @ decimal sid @ '','')"

text \<open>
  The statement over the rows of the table: every row with the key gets its new
  document; when the store refuses one of them the whole statement fails and no row is
  changed. A statement that matches no row succeeds. No table of sessions is read.
\<close>

fun update_sessions_registered :: "mysql \<Rightarrow> nat \<Rightarrow> nat \<Rightarrow> participant list \<Rightarrow> participant list option" where
  "update_sessions_registered m pid sid [] = Some []"
| "update_sessions_registered m pid sid (p # ps) =
     (if participant_id p = pid
      then (case json_document m (concat_session m (sessions_registered p) sid) of
              None \<Rightarrow> None
            | Some v \<Rightarrow>
                (case update_sessions_registered m pid sid ps of
                   None \<Rightarrow> None
                 | Some ps' \<Rightarrow> Some (p\<lparr>sessions_registered := Some v\<rparr> # ps')))
      else (case update_sessions_registered m pid sid ps of
              None \<Rightarrow> None
            | Some ps' \<Rightarrow> Some (p # ps')))"

definition register_session_ok :: response where
  "register_session_ok = respond 200 (JObj [(''message'', JStr ''Session registration successful'')])"

definition register_session_error :: response where
  "register_session_error = respond 500 (JObj [(''error'', JStr ''Error registering for session'')])"

text \<open>The handler: the statement in a \<^verbatim>\<open>try\<close>, whose \<^verbatim>\<open>catch\<close> answers status 500.\<close>

definition register_session :: "mysql \<Rightarrow> nat \<Rightarrow> nat \<Rightarrow> db \<Rightarrow> response \<times> db" where
  "register_session m pid sid d =
     (case update_sessions_registered m pid sid (participants d) of
        None \<Rightarrow> (register_session_error, d)
      | Some ps \<Rightarrow> (register_session_ok, d\<lparr>participants := ps\<rparr>))"

text \<open>The column of the participant with a given key.\<close>

definition registered_sessions :: "db \<Rightarrow> nat \<Rightarrow> json option option" where
  "registered_sessions d pid =
     map_option sessions_registered (find (\<lambda>p. participant_id p = pid) (participants d))"

subsection \<open>A small conference\<close>

text \<open>
  Two participants and one session of capacity \<open>c\<close>, with the given attendance rows;
  the examples below run the handlers on it.
\<close>

definition ann :: participant where
  "ann = \<lparr>participant_id = 1, name = ''Ann'', email = ''ann@x.com'', organization = None,
          password_hash = ''$2b$10$annpw'', qr_code = ''data:image/png;base64,ann'',
          sessions_registered = None\<rparr>"

definition bob :: participant where
  "bob = \<lparr>participant_id = 2, name = ''Bob'', email = ''bob@x.com'', organization = None,
          password_hash = ''$2b$10$bobpw'', qr_code = ''data:image/png;base64,bob'',
          sessions_registered = None\<rparr>"

definition keynote :: "int \<Rightarrow> track_session" where
  "keynote c = \<lparr>session_id = 1, track = ''Main'', session_name = ''Keynote'',
                speaker = ''Dr. Lee'', time = ''2025-01-10 09:00:00'', venue = ''Hall A'',
                capacity = c\<rparr>"

definition ann_admitted :: attendance_row where
  "ann_admitted = \<lparr>attendance_id = 1, att_participant_id = 1, att_session_id = 1,
                   check_in_time = None\<rparr>"

definition conference :: "int \<Rightarrow> attendance_row list \<Rightarrow> db" where
  "conference c rows = \<lparr>participants = [ann, bob], tracks_sessions = [keynote c],
                        attendance = rows, participants_auto_increment = 3,
                        attendance_auto_increment = Suc (length rows)\<rparr>"

text \<open>The store before anyone has registered.\<close>

definition empty_store :: db where
  "empty_store = \<lparr>participants = [], tracks_sessions = [], attendance = [],
                  participants_auto_increment = 1, attendance_auto_increment = 1\<rparr>"

text \<open>
  External libraries for the examples: hashing and QR encoding always answer, and the
  mail transport delivers or rejects as the flag says.
\<close>

definition services :: "bool \<Rightarrow> env" where
  "services delivers =
     \<lparr>bcrypt_hash = (\<lambda>pw. Some (''$2b$10$'' @ pw)),
      bcrypt_compare = (\<lambda>pw h. Some (h = ''$2b$10$'' @ pw)),
      toDataURL = (\<lambda>s. Some (''data:image/png;base64,'' @ s)),
      sendMail = (\<lambda>m. delivers)\<rparr>"

text \<open>
  A store for the examples, whose JSON column takes the documents that are whole
  numbers: a text is a document when it is a decimal numeral without a leading zero.
\<close>

definition digit_value :: "char \<Rightarrow> nat" where
  "digit_value c = length (takeWhile (\<lambda>x. x \<noteq> c) ''0123456789'')"

definition numeral_value :: "string \<Rightarrow> nat" where
  "numeral_value t = foldl (\<lambda>n c. 10 * n + digit_value c) 0 t"

definition is_numeral :: "string \<Rightarrow> bool" where
  "is_numeral t = (t \<noteq> [] \<and> list_all (\<lambda>c. c \<in> set ''0123456789'') t \<and>
                   (t = ''0'' \<or> hd t \<noteq> CHR ''0''))"

definition whole_numbers :: mysql where
  "whole_numbers =
     \<lparr>json_text = (\<lambda>v. case v of JNum n \<Rightarrow> decimal (nat n) | _ \<Rightarrow> ''null''),
      json_document = (\<lambda>t. if is_numeral t then Some (JNum (int (numeral_value t))) else None)\<rparr>"

section \<open>Properties of check-in\<close>

lemmas example_defs = ann_def bob_def keynote_def conference_def ann_admitted_def

lemmas check_in_defs = check_in_def check_in_commit_def select_session_def
  insert_attendance_def count_attendance_def

lemmas response_defs = session_full_def check_in_ok_def check_in_error_def respond_def

lemma find_by_key:
  "distinct (map f xs) \<Longrightarrow> x \<in> set xs \<Longrightarrow> find (\<lambda>y. f y = f x) xs = Some x"
  by (induction xs) auto

lemma check_in_tracks_sessions:
  "tracks_sessions (snd (check_in pid sid d)) = tracks_sessions d"
  by (simp add: check_in_defs split: option.splits)

lemma check_in_full:
  assumes "distinct (map session_id (tracks_sessions d))" "s \<in> set (tracks_sessions d)"
    "capacity s < int (count_attendance d (session_id s)) + 1"
  shows "check_in pid (session_id s) d = (session_full, d)"
  using assms find_by_key [of session_id "tracks_sessions d" s]
  by (simp add: check_in_def check_in_commit_def select_session_def)

lemma check_in_count_other:
  "sid' \<noteq> sid \<Longrightarrow> count_attendance (snd (check_in pid sid d)) sid' = count_attendance d sid'"
  by (simp add: check_in_defs split: option.splits)

lemma check_in_count_same:
  assumes "distinct (map session_id (tracks_sessions d))" "s \<in> set (tracks_sessions d)"
    "int (count_attendance d (session_id s)) \<le> capacity s"
  shows "int (count_attendance (snd (check_in pid (session_id s) d)) (session_id s)) \<le> capacity s"
  using assms find_by_key [of session_id "tracks_sessions d" s]
  by (simp add: check_in_defs)

lemma check_in_respects:
  assumes "distinct (map session_id (tracks_sessions d))" "capacity_respected d"
  shows "capacity_respected (snd (check_in pid sid d))"
  unfolding capacity_respected_def
proof
  fix s assume "s \<in> set (tracks_sessions (snd (check_in pid sid d)))"
  then have s: "s \<in> set (tracks_sessions d)" by (simp add: check_in_tracks_sessions)
  with assms(2) have le: "int (count_attendance d (session_id s)) \<le> capacity s"
    by (simp add: capacity_respected_def)
  show "int (count_attendance (snd (check_in pid sid d)) (session_id s)) \<le> capacity s"
  proof (cases "session_id s = sid")
    case True
    with check_in_count_same [OF assms(1) s le] show ?thesis by auto
  next
    case False
    with le show ?thesis by (simp add: check_in_count_other)
  qed
qed

lemma check_in_all_respects:
  "distinct (map session_id (tracks_sessions d)) \<Longrightarrow> capacity_respected d \<Longrightarrow>
   capacity_respected (check_in_all rs d)"
proof (induction rs arbitrary: d)
  case Nil
  then show ?case by simp
next
  case (Cons r rs)
  obtain pid sid where r: "r = (pid, sid)" by (cases r)
  from Cons.prems have "capacity_respected (snd (check_in pid sid d))"
    by (simp add: check_in_respects)
  moreover from Cons.prems have "distinct (map session_id (tracks_sessions (snd (check_in pid sid d))))"
    by (simp add: check_in_tracks_sessions)
  ultimately show ?case using Cons.IH r by simp
qed

lemma capacity_respected_empty:
  "attendance d = [] \<Longrightarrow> \<forall>s \<in> set (tracks_sessions d). 0 \<le> capacity s \<Longrightarrow> capacity_respected d"
  by (simp add: capacity_respected_def count_attendance_def)

text \<open>
  Check-ins served one after the other keep the capacity invariant. In a table whose
  \<^verbatim>\<open>session_id\<close> is a key, a check-in to a session whose count of attendance rows
  plus one exceeds its capacity answers ``Session is full'' (status 400) and leaves the
  store as it was; when no session holds more rows than its capacity, the same is true
  after any sequence of such check-ins; and so it is after any sequence that starts with
  no attendance rows and capacities that are not negative.
\<close>

lemma check_in_serial_capacity:
  assumes "distinct (map session_id (tracks_sessions d))"
  shows "(\<forall>s \<in> set (tracks_sessions d).
            capacity s < int (count_attendance d (session_id s)) + 1 \<longrightarrow>
            check_in pid (session_id s) d = (session_full, d)) \<and>
         (capacity_respected d \<longrightarrow> capacity_respected (check_in_all rs d)) \<and>
         (attendance d = [] \<and> (\<forall>s \<in> set (tracks_sessions d). 0 \<le> capacity s) \<longrightarrow>
            capacity_respected (check_in_all rs d))"
  using assms by (simp add: check_in_full check_in_all_respects capacity_respected_empty)

lemma check_in_serial_capacity_example:
  "distinct (map session_id (tracks_sessions (conference 1 [ann_admitted]))) \<and>
   keynote 1 \<in> set (tracks_sessions (conference 1 [ann_admitted])) \<and>
   capacity (keynote 1) < int (count_attendance (conference 1 [ann_admitted]) 1) + 1 \<and>
   check_in 2 1 (conference 1 [ann_admitted]) = (session_full, conference 1 [ann_admitted]) \<and>
   capacity_respected (conference 1 [ann_admitted]) \<and>
   capacity_respected (check_in_all [(2, 1), (1, 1)] (conference 1 [ann_admitted])) \<and>
   attendance (conference 1 []) = [] \<and>
   map capacity (tracks_sessions (conference 1 [])) = [1] \<and>
   capacity_respected (check_in_all [(1, 1), (2, 1)] (conference 1 []))"
proof -
  let ?d = "conference 1 [ann_admitted]"
  have dist: "distinct (map session_id (tracks_sessions (conference 1 rows)))" for rows
    by (simp add: conference_def)
  have resp: "capacity_respected ?d"
    by (simp add: capacity_respected_def count_attendance_def example_defs)
  have full: "capacity (keynote 1) < int (count_attendance ?d 1) + 1"
    by (simp add: count_attendance_def example_defs)
  have mem: "keynote 1 \<in> set (tracks_sessions ?d)"
    by (simp add: conference_def)
  have sid: "session_id (keynote 1) = 1"
    by (simp add: keynote_def)
  have empty: "attendance (conference 1 []) = []"
    and caps: "map capacity (tracks_sessions (conference 1 [])) = [1]"
    and nonneg: "\<forall>s \<in> set (tracks_sessions (conference 1 [])). 0 \<le> capacity s"
    by (simp_all add: example_defs)
  from check_in_serial_capacity [OF dist, of "[ann_admitted]" 2 "[(2, 1), (1, 1)]"] resp full mem sid
  have a: "check_in 2 1 ?d = (session_full, ?d)"
    and b: "capacity_respected (check_in_all [(2, 1), (1, 1)] ?d)" by fastforce+
  from check_in_serial_capacity [OF dist, of "[]" 2 "[(1, 1), (2, 1)]"] empty nonneg
  have c: "capacity_respected (check_in_all [(1, 1), (2, 1)] (conference 1 []))" by blast
  from a b c dist resp full mem empty caps show ?thesis by blast
qed

lemma check_in_as_schedule:
  "run_schedule [0, 0] [Received pid sid] d
     = ([Responded (fst (check_in pid sid d))], snd (check_in pid sid d))"
  by (simp add: check_in_def split: prod.splits)

lemma check_in_last_slot:
  assumes "distinct (map session_id (tracks_sessions d))" "s \<in> set (tracks_sessions d)"
    "int (count_attendance d (session_id s)) + 1 = capacity s"
    "\<exists>p \<in> set (participants d). participant_id p = pid"
  shows "fst (check_in pid (session_id s) d) = check_in_ok"
    and "int (count_attendance (snd (check_in pid (session_id s) d)) (session_id s)) = capacity s"
  using assms find_by_key [of session_id "tracks_sessions d" s]
  by (auto simp add: check_in_defs)

lemma check_in_ok_distinct:
  "check_in_ok \<noteq> session_full" "check_in_ok \<noteq> check_in_error"
  by (simp_all add: response_defs)

text \<open>
  C1. The count of attendance rows of a session should never exceed its capacity, and a
  check-in made when the count plus one exceeds the capacity should insert nothing.
  The handler breaks this when two requests overlap: the session has capacity one and
  no rows, both requests run their first statement, then Ann's row is inserted and
  the session is full, and Bob's insert still runs on the count he read before; the
  session ends with two rows.
\<close>

theorem check_in_race_exceeds_capacity:
  "capacity (keynote 1) = 1 \<and>
   count_attendance (conference 1 []) 1 = 0 \<and>
   count_attendance (snd (run_schedule [0, 1, 0] [Received 1 1, Received 2 1] (conference 1 []))) 1 = 1 \<and>
   fst (run_schedule [0, 1, 0, 1] [Received 1 1, Received 2 1] (conference 1 [])) ! 1
     = Responded check_in_ok \<and>
   count_attendance (snd (run_schedule [0, 1, 0, 1] [Received 1 1, Received 2 1] (conference 1 []))) 1 = 2"
  by (simp add: check_in_defs example_defs)

text \<open>
  C2. Of two check-ins that race for the last place exactly one should succeed. The
  handler lets both succeed: with one place left, in each of the four orders in which
  both requests run their first statement before either runs its second, both see the
  place free and both answer ``Check-in successful''.
\<close>

theorem check_in_race_both_succeed:
  "capacity (keynote 1) = int (count_attendance (conference 1 []) 1) + 1 \<and>
   fst (run_schedule [0, 1, 0, 1] [Received 1 1, Received 2 1] (conference 1 []))
     = [Responded check_in_ok, Responded check_in_ok] \<and>
   fst (run_schedule [0, 1, 1, 0] [Received 1 1, Received 2 1] (conference 1 []))
     = [Responded check_in_ok, Responded check_in_ok] \<and>
   fst (run_schedule [1, 0, 0, 1] [Received 1 1, Received 2 1] (conference 1 []))
     = [Responded check_in_ok, Responded check_in_ok] \<and>
   fst (run_schedule [1, 0, 1, 0] [Received 1 1, Received 2 1] (conference 1 []))
     = [Responded check_in_ok, Responded check_in_ok]"
  by (simp add: check_in_defs example_defs)

text \<open>
  Served one after the other, in either order, two check-ins for the last place by
  participants that exist end as they should: the one served first succeeds, the other
  answers ``Session is full'', and the session then holds exactly its capacity. The
  guard of the handler works as long as requests do not overlap.
\<close>

lemma check_in_serial_last_slot:
  assumes "distinct (map session_id (tracks_sessions d))" "s \<in> set (tracks_sessions d)"
    "int (count_attendance d (session_id s)) + 1 = capacity s"
    "\<exists>p \<in> set (participants d). participant_id p = p1"
    "\<exists>p \<in> set (participants d). participant_id p = p2"
  shows "fst (run_schedule [0, 0, 1, 1] [Received p1 (session_id s), Received p2 (session_id s)] d)
           = [Responded check_in_ok, Responded session_full] \<and>
         fst (run_schedule [1, 1, 0, 0] [Received p1 (session_id s), Received p2 (session_id s)] d)
           = [Responded session_full, Responded check_in_ok] \<and>
         int (count_attendance
               (snd (run_schedule [0, 0, 1, 1] [Received p1 (session_id s), Received p2 (session_id s)] d))
               (session_id s)) = capacity s \<and>
         int (count_attendance
               (snd (run_schedule [1, 1, 0, 0] [Received p1 (session_id s), Received p2 (session_id s)] d))
               (session_id s)) = capacity s"
proof -
  let ?sid = "session_id s"
  have step: "fst (check_in p ?sid d) = check_in_ok \<and>
              check_in q ?sid (snd (check_in p ?sid d)) = (session_full, snd (check_in p ?sid d)) \<and>
              int (count_attendance (snd (check_in p ?sid d)) ?sid) = capacity s"
    if "\<exists>x \<in> set (participants d). participant_id x = p" for p q
  proof -
    let ?d = "snd (check_in p ?sid d)"
    from check_in_last_slot [OF assms(1-3) that]
    have ok: "fst (check_in p ?sid d) = check_in_ok"
      and cnt: "int (count_attendance ?d ?sid) = capacity s" by simp_all
    have "check_in q ?sid ?d = (session_full, ?d)"
      by (rule check_in_full) (simp_all add: check_in_tracks_sessions assms cnt)
    with ok cnt show ?thesis by simp
  qed
  have run1: "run_schedule [0, 0, 1, 1] [Received p ?sid, Received q ?sid] d
          = ([Responded (fst (check_in p ?sid d)),
              Responded (fst (check_in q ?sid (snd (check_in p ?sid d))))],
             snd (check_in q ?sid (snd (check_in p ?sid d))))" for p q
    by (simp add: check_in_def split: prod.splits)
  have run2: "run_schedule [1, 1, 0, 0] [Received p ?sid, Received q ?sid] d
          = ([Responded (fst (check_in p ?sid (snd (check_in q ?sid d)))),
              Responded (fst (check_in q ?sid d))],
             snd (check_in p ?sid (snd (check_in q ?sid d))))" for p q
    by (simp add: check_in_def split: prod.splits)
  from step [OF assms(4), of p2] step [OF assms(5), of p1] show ?thesis
    unfolding run1 run2 by simp
qed

lemma check_in_serial_last_slot_example:
  "distinct (map session_id (tracks_sessions (conference 1 []))) \<and>
   keynote 1 \<in> set (tracks_sessions (conference 1 [])) \<and>
   int (count_attendance (conference 1 []) (session_id (keynote 1))) + 1 = capacity (keynote 1) \<and>
   (\<exists>p \<in> set (participants (conference 1 [])). participant_id p = 1) \<and>
   (\<exists>p \<in> set (participants (conference 1 [])). participant_id p = 2) \<and>
   fst (run_schedule [0, 0, 1, 1] [Received 1 1, Received 2 1] (conference 1 []))
     = [Responded check_in_ok, Responded session_full] \<and>
   fst (run_schedule [1, 1, 0, 0] [Received 1 1, Received 2 1] (conference 1 []))
     = [Responded session_full, Responded check_in_ok] \<and>
   int (count_attendance
         (snd (run_schedule [0, 0, 1, 1] [Received 1 1, Received 2 1] (conference 1 []))) 1) = 1 \<and>
   int (count_attendance
         (snd (run_schedule [1, 1, 0, 0] [Received 1 1, Received 2 1] (conference 1 []))) 1) = 1"
proof -
  let ?d = "conference 1 []"
  have h1: "distinct (map session_id (tracks_sessions ?d))" by (simp add: conference_def)
  have h2: "keynote 1 \<in> set (tracks_sessions ?d)" by (simp add: conference_def)
  have h3: "int (count_attendance ?d (session_id (keynote 1))) + 1 = capacity (keynote 1)"
    by (simp add: count_attendance_def example_defs)
  have h4: "\<exists>p \<in> set (participants ?d). participant_id p = 1" by (simp add: example_defs)
  have h5: "\<exists>p \<in> set (participants ?d). participant_id p = 2" by (simp add: example_defs)
  have sid: "session_id (keynote 1) = 1" "capacity (keynote 1) = 1" by (simp_all add: keynote_def)
  from check_in_serial_last_slot [OF h1 h2 h3 h4 h5] h1 h2 h3 h4 h5 show ?thesis
    unfolding sid by blast
qed


text \<open>
  C3, as stated, fails: Ann checks in twice to a session of capacity two; both requests
  succeed and the pair has two attendance rows.
\<close>

theorem check_in_twice_counterexample:
  "fst (check_in 1 1 (conference 2 [])) = check_in_ok \<and>
   fst (check_in 1 1 (snd (check_in 1 1 (conference 2 [])))) = check_in_ok \<and>
   length (attendance_of (snd (check_in 1 1 (snd (check_in 1 1 (conference 2 []))))) 1 1) = 2"
  by (simp add: check_in_defs attendance_of_def example_defs)

text \<open>
  C3, amended. A check-in for a pair that already has an attendance row is served like
  any other: while the session is below its capacity it succeeds and the pair has one
  row more; once the session is full it answers ``Session is full'' and the store is
  unchanged.
\<close>

theorem check_in_already_admitted:
  assumes "distinct (map session_id (tracks_sessions d))" "s \<in> set (tracks_sessions d)"
    "\<exists>p \<in> set (participants d). participant_id p = pid"
    "attendance_of d pid (session_id s) \<noteq> []"
  shows "(int (count_attendance d (session_id s)) < capacity s \<longrightarrow>
            fst (check_in pid (session_id s) d) = check_in_ok \<and>
            length (attendance_of (snd (check_in pid (session_id s) d)) pid (session_id s))
              = Suc (length (attendance_of d pid (session_id s)))) \<and>
         (capacity s \<le> int (count_attendance d (session_id s)) \<longrightarrow>
            check_in pid (session_id s) d = (session_full, d))"
  using assms find_by_key [of session_id "tracks_sessions d" s]
  by (auto simp add: check_in_defs attendance_of_def)

theorem check_in_already_admitted_witness:
  "distinct (map session_id (tracks_sessions (conference 2 [ann_admitted]))) \<and>
   keynote 2 \<in> set (tracks_sessions (conference 2 [ann_admitted])) \<and>
   (\<exists>p \<in> set (participants (conference 2 [ann_admitted])). participant_id p = 1) \<and>
   attendance_of (conference 2 [ann_admitted]) 1 (session_id (keynote 2)) \<noteq> [] \<and>
   int (count_attendance (conference 2 [ann_admitted]) (session_id (keynote 2))) < capacity (keynote 2) \<and>
   fst (check_in 1 (session_id (keynote 2)) (conference 2 [ann_admitted])) = check_in_ok \<and>
   length (attendance_of (snd (check_in 1 (session_id (keynote 2)) (conference 2 [ann_admitted])))
            1 (session_id (keynote 2))) = 2 \<and>
   capacity (keynote 1) \<le> int (count_attendance (conference 1 [ann_admitted]) (session_id (keynote 1))) \<and>
   check_in 1 (session_id (keynote 1)) (conference 1 [ann_admitted])
     = (session_full, conference 1 [ann_admitted])"
proof -
  have h1: "distinct (map session_id (tracks_sessions (conference c [ann_admitted])))" for c
    by (simp add: conference_def)
  have h2: "keynote c \<in> set (tracks_sessions (conference c [ann_admitted]))" for c
    by (simp add: conference_def)
  have h3: "\<exists>p \<in> set (participants (conference c [ann_admitted])). participant_id p = 1" for c
    by (simp add: example_defs)
  have h4: "attendance_of (conference c [ann_admitted]) 1 (session_id (keynote c)) \<noteq> []" for c
    by (simp add: attendance_of_def example_defs)
  have h5: "int (count_attendance (conference 2 [ann_admitted]) (session_id (keynote 2)))
              < capacity (keynote 2)"
    by (simp add: count_attendance_def example_defs)
  have h6: "capacity (keynote 1)
              \<le> int (count_attendance (conference 1 [ann_admitted]) (session_id (keynote 1)))"
    by (simp add: count_attendance_def example_defs)
  have len: "length (attendance_of (conference 2 [ann_admitted]) 1 (session_id (keynote 2))) = 1"
    by (simp add: attendance_of_def example_defs)
  from check_in_already_admitted [OF h1 h2 h3 h4, of 2] check_in_already_admitted [OF h1 h2 h3 h4, of 1]
    h1 [of 2] h2 [of 2] h3 [of 2] h4 [of 2] h5 h6 len
  show ?thesis by simp
qed

text \<open>
  C5, as stated, fails: the response of a successful check-in carries the message only,
  and the inserted row has no check-in time.
\<close>

theorem check_in_record_counterexample:
  "fst (check_in 1 1 (conference 2 [])) = check_in_ok \<and>
   body (fst (check_in 1 1 (conference 2 []))) = JObj [(''message'', JStr ''Check-in successful'')] \<and>
   map check_in_time (attendance (snd (check_in 1 1 (conference 2 [])))) = [None]"
  by (simp add: check_in_defs response_defs example_defs)

text \<open>
  C5, amended. Every successful check-in appends exactly one attendance row, for the
  participant and session of the request, and answers with the message
  ``Check-in successful'' alone.
\<close>

theorem check_in_success:
  assumes "fst (check_in pid sid d) = check_in_ok"
  shows "(\<exists>a. attendance (snd (check_in pid sid d)) = attendance d @ [a] \<and>
              att_participant_id a = pid \<and> att_session_id a = sid) \<and>
         body (fst (check_in pid sid d)) = JObj [(''message'', JStr ''Check-in successful'')]"
proof -
  from assms have "body (fst (check_in pid sid d)) = JObj [(''message'', JStr ''Check-in successful'')]"
    by (simp add: response_defs)
  moreover from assms check_in_ok_distinct
  have "\<exists>a. attendance (snd (check_in pid sid d)) = attendance d @ [a] \<and>
              att_participant_id a = pid \<and> att_session_id a = sid"
    by (auto simp add: check_in_def check_in_commit_def insert_attendance_def
        split: option.splits if_splits)
  ultimately show ?thesis by simp
qed

theorem check_in_success_witness:
  "fst (check_in 1 1 (conference 2 [])) = check_in_ok \<and>
   (\<exists>a. attendance (snd (check_in 1 1 (conference 2 []))) = attendance (conference 2 []) @ [a] \<and>
        att_participant_id a = 1 \<and> att_session_id a = 1) \<and>
   body (fst (check_in 1 1 (conference 2 []))) = JObj [(''message'', JStr ''Check-in successful'')]"
proof -
  have ok: "fst (check_in 1 1 (conference 2 [])) = check_in_ok"
    by (simp add: check_in_defs example_defs)
  from check_in_success [OF ok] ok show ?thesis by blast
qed

section \<open>Properties of session registration\<close>

lemmas register_session_defs = register_session_def register_session_ok_def
  register_session_error_def respond_def

lemma update_no_match:
  "\<forall>p \<in> set ps. participant_id p \<noteq> pid \<Longrightarrow> update_sessions_registered m pid sid ps = Some ps"
  by (induction ps) simp_all



lemma update_first_write:
  assumes "json_document m (decimal sid) = Some v"
    and "distinct (map participant_id ps)"
    and "find (\<lambda>p. participant_id p = pid) ps = Some p" "sessions_registered p = None"
  shows "\<exists>ps'. update_sessions_registered m pid sid ps = Some ps' \<and>
               find (\<lambda>p. participant_id p = pid) ps' = Some (p\<lparr>sessions_registered := Some v\<rparr>)"
  using assms(2-4)
proof (induction ps)
  case Nil
  then show ?case by simp
next
  case (Cons q ps)
  show ?case
  proof (cases "participant_id q = pid")
    case True
    with Cons.prems have q: "q = p" and "\<forall>x \<in> set ps. participant_id x \<noteq> pid"
      by (auto simp add: image_iff)
    then have "update_sessions_registered m pid sid ps = Some ps" by (simp add: update_no_match)
    with True q Cons.prems assms(1) show ?thesis by (simp add: concat_session_def)
  next
    case False
    with Cons obtain ps' where "update_sessions_registered m pid sid ps = Some ps'"
      "find (\<lambda>p. participant_id p = pid) ps' = Some (p\<lparr>sessions_registered := Some v\<rparr>)"
      by auto
    with False show ?thesis by simp
  qed
qed



lemma register_session_first:
  assumes "json_document m (decimal sid) = Some v"
    and "distinct (map participant_id (participants d))"
    and "registered_sessions d pid = Some None"
  shows "fst (register_session m pid sid d) = register_session_ok"
    and "registered_sessions (snd (register_session m pid sid d)) pid = Some (Some v)"
proof -
  from assms(3) obtain p where "find (\<lambda>p. participant_id p = pid) (participants d) = Some p"
    "sessions_registered p = None"
    by (auto simp add: registered_sessions_def)
  from update_first_write [OF assms(1,2) this, of ] obtain ps' where
    "update_sessions_registered m pid sid (participants d) = Some ps'"
    "find (\<lambda>p. participant_id p = pid) ps' = Some (p\<lparr>sessions_registered := Some v\<rparr>)"
    by auto
  then show "fst (register_session m pid sid d) = register_session_ok"
    and "registered_sessions (snd (register_session m pid sid d)) pid = Some (Some v)"
    by (simp_all add: register_session_def registered_sessions_def)
qed


lemma whole_numbers_decimal:
  "json_document whole_numbers (decimal 1) = Some (JNum 1)"
  "json_document whole_numbers (decimal 9) = Some (JNum 9)"
  by (simp_all add: whole_numbers_def is_numeral_def numeral_value_def digit_value_def
      decimal.simps digit_def)


lemma bob_unregistered: "registered_sessions (conference c rows) 2 = Some None"
  by (simp add: registered_sessions_def example_defs)

lemma conference_keys:
  "map participant_id (participants (conference c rows)) = [1, 2]"
  "map session_id (tracks_sessions (conference c rows)) = [1]"
  by (simp_all add: example_defs)




text \<open>
  C9, as stated, fails: no participant has key 7 and no session has key 9, yet the call
  for participant 7 reports success, and the call for Bob and session 9 reports
  success and stores 9 in Bob's column.
\<close>

theorem register_session_unknown_counterexample:
  "map participant_id (participants (conference 1 [])) = [1, 2] \<and>
   map session_id (tracks_sessions (conference 1 [])) = [1] \<and>
   status (fst (register_session whole_numbers 7 9 (conference 1 []))) = 200 \<and>
   status (fst (register_session whole_numbers 2 9 (conference 1 []))) = 200 \<and>
   registered_sessions (conference 1 []) 2 = Some None \<and>
   registered_sessions (snd (register_session whole_numbers 2 9 (conference 1 []))) 2
     = Some (Some (JNum 9))"
proof -
  let ?d = "conference 1 []"
  have dist: "distinct (map participant_id (participants ?d))"
    by (simp add: conference_keys)
  have "update_sessions_registered whole_numbers 7 9 (participants ?d) = Some (participants ?d)"
    by (rule update_no_match) (simp add: example_defs)
  then have "status (fst (register_session whole_numbers 7 9 ?d)) = 200"
    by (simp add: register_session_defs)
  moreover note register_session_first [OF whole_numbers_decimal(2) dist bob_unregistered]
  ultimately show ?thesis
    by (simp add: conference_keys bob_unregistered register_session_ok_def respond_def)
qed

text \<open>
  C9, amended. Session registration checks neither key, and it answers either
  ``Session registration successful'' (status 200) or the general error, never a
  response of its own for a missing participant or session. When no participant has
  the key, it reports success and the store is unchanged. When a participant with an
  empty column has the key, in a table whose \<^verbatim>\<open>participant_id\<close> is a key, and no
  session has the session key, it reports success and stores the session key all the
  same.
\<close>

theorem register_session_unchecked:
  "((\<forall>p \<in> set (participants d). participant_id p \<noteq> pid) \<longrightarrow>
      register_session m pid sid d = (register_session_ok, d)) \<and>
   (json_document m (decimal sid) = Some (JNum (int sid)) \<and>
    distinct (map participant_id (participants d)) \<and>
    registered_sessions d pid = Some None \<and>
    (\<forall>s \<in> set (tracks_sessions d). session_id s \<noteq> sid) \<longrightarrow>
      fst (register_session m pid sid d) = register_session_ok \<and>
      registered_sessions (snd (register_session m pid sid d)) pid = Some (Some (JNum (int sid)))) \<and>
   status register_session_ok = 200 \<and>
   (fst (register_session m pid sid d) = register_session_ok \<or>
    fst (register_session m pid sid d) = register_session_error)"
proof -
  have "register_session m pid sid d = (register_session_ok, d)"
    if "\<forall>p \<in> set (participants d). participant_id p \<noteq> pid"
    using update_no_match [OF that] by (simp add: register_session_def)
  moreover have "status register_session_ok = 200"
    by (simp add: register_session_ok_def respond_def)
  moreover have "fst (register_session m pid sid d) = register_session_ok \<or>
                 fst (register_session m pid sid d) = register_session_error"
    by (simp add: register_session_def split: option.splits)
  ultimately show ?thesis using register_session_first [of m sid "JNum (int sid)" d pid]
    by blast
qed

theorem register_session_unchecked_witness:
  "map participant_id (participants (conference 1 [])) = [1, 2] \<and>
   map session_id (tracks_sessions (conference 1 [])) = [1] \<and>
   registered_sessions (conference 1 []) 2 = Some None \<and>
   json_document whole_numbers (decimal 9) = Some (JNum 9) \<and>
   register_session whole_numbers 7 9 (conference 1 []) = (register_session_ok, conference 1 []) \<and>
   fst (register_session whole_numbers 2 9 (conference 1 [])) = register_session_ok \<and>
   registered_sessions (snd (register_session whole_numbers 2 9 (conference 1 []))) 2
     = Some (Some (JNum 9))"
proof -
  let ?d = "conference 1 []"
  have h1: "\<forall>p \<in> set (participants ?d). participant_id p \<noteq> 7" by (simp add: example_defs)
  have h2: "\<forall>s \<in> set (tracks_sessions ?d). session_id s \<noteq> 9" by (simp add: example_defs)
  have h3: "distinct (map participant_id (participants ?d))" by (simp add: conference_keys)
  have h4: "json_document whole_numbers (decimal 9) = Some (JNum (int 9))"
    by (simp add: whole_numbers_decimal)
  from register_session_unchecked [of ?d 7 whole_numbers 9] h1
  have a: "register_session whole_numbers 7 9 ?d = (register_session_ok, ?d)" by blast
  from register_session_unchecked [of ?d 2 whole_numbers 9] h2 h3 h4 bob_unregistered [of 1 "[]"]
  have b: "fst (register_session whole_numbers 2 9 ?d) = register_session_ok \<and>
           registered_sessions (snd (register_session whole_numbers 2 9 ?d)) 2 = Some (Some (JNum (int 9)))"
    by blast
  from a b show ?thesis by (simp add: conference_keys bob_unregistered whole_numbers_decimal)
qed

section \<open>Properties of login and of the participant list\<close>

lemmas login_defs = login_def invalid_credentials_def login_error_def login_ok_def respond_def

lemma participant_listed_keys:
  "object_keys (participant_listed p) = [''participant_id'', ''name'', ''email'', ''sessions_registered'']"
  by (simp add: participant_listed_def)

lemma get_participants_hides_password_hash:
  "\<exists>rows. body (get_participants d) = JArr rows \<and>
          (\<forall>r \<in> set rows. ''password_hash'' \<notin> set (object_keys r))"
  by (auto simp add: get_participants_def respond_def participant_listed_keys)

lemma login_ok_exposes_password_hash:
  "member ''password_hash'' (member ''participant'' (body (login_ok p))) = JStr (password_hash p)"
  by (simp add: login_ok_def respond_def participant_row_def)

text \<open>
  C6. The list of participants names its four columns and leaves the hash out
  (\<open>get_participants_hides_password_hash\<close>), but a successful login answers with
  the whole row: Ann logs in with her password, and the response holds her
  \<^verbatim>\<open>password_hash\<close>.
\<close>

theorem login_exposes_password_hash:
  "login (services True) ''ann@x.com'' ''annpw'' (conference 1 []) = login_ok ann \<and>
   member ''password_hash'' (member ''participant'' (body (login_ok ann))) = JStr ''$2b$10$annpw'' \<and>
   ''password_hash'' \<in> set (json_keys (body (login_ok ann)))"
  by (simp add: login_def services_def example_defs login_ok_def respond_def participant_row_def
      json_of_text_def json_of_document_def)

text \<open>
  C10. A login whose email matches no participant answers ``Invalid email or password''
  (status 401), whatever the password and whatever \<^verbatim>\<open>bcrypt.compare\<close> would do; a
  login whose email matches a participant and whose password the comparison refuses
  answers the very same response; and that response is not the one of the \<^verbatim>\<open>catch\<close>.
\<close>

theorem login_unknown_email:
  "((\<forall>p \<in> set (participants d). email p \<noteq> em) \<longrightarrow> login e em pw d = invalid_credentials) \<and>
   (find (\<lambda>p. email p = em') (participants d) = Some p \<and>
    bcrypt_compare e pw' (password_hash p) = Some False \<longrightarrow>
      login e em' pw' d = invalid_credentials) \<and>
   invalid_credentials \<noteq> login_error \<and> status invalid_credentials = 401"
proof -
  have "find (\<lambda>p. email p = em) (participants d) = None"
    if "\<forall>p \<in> set (participants d). email p \<noteq> em"
    using that by (simp add: find_None_iff)
  then show ?thesis
    by (auto simp add: login_defs)
qed

theorem login_unknown_email_witness:
  "map email (participants (conference 1 [])) = [''ann@x.com'', ''bob@x.com''] \<and>
   find (\<lambda>p. email p = ''ann@x.com'') (participants (conference 1 [])) = Some ann \<and>
   bcrypt_compare (services True) ''guess'' (password_hash ann) = Some False \<and>
   login (services True) ''eve@x.com'' ''guess'' (conference 1 []) = invalid_credentials \<and>
   login (services True) ''ann@x.com'' ''guess'' (conference 1 []) = invalid_credentials"
proof -
  let ?d = "conference 1 []"
  have h1: "\<forall>p \<in> set (participants ?d). email p \<noteq> ''eve@x.com''"
    by (simp add: example_defs)
  have h2: "find (\<lambda>p. email p = ''ann@x.com'') (participants ?d) = Some ann"
    by (simp add: example_defs)
  have h3: "bcrypt_compare (services True) ''guess'' (password_hash ann) = Some False"
    by (simp add: services_def ann_def)
  from login_unknown_email [of ?d "''eve@x.com''" "services True" "''guess''" "''ann@x.com''" ann "''guess''"]
    h1 h2 h3
  have "login (services True) ''eve@x.com'' ''guess'' ?d = invalid_credentials"
    and "login (services True) ''ann@x.com'' ''guess'' ?d = invalid_credentials"
    by blast+
  moreover have "map email (participants ?d) = [''ann@x.com'', ''bob@x.com'']"
    by (simp add: example_defs)
  ultimately show ?thesis using h2 h3 by simp
qed

section \<open>Properties of registration\<close>

lemmas register_defs = register_def insert_participant_def

lemma register_duplicate:
  "\<exists>p \<in> set (participants d). email p = em \<Longrightarrow> register e nm em pw d = (register_error, d)"
  by (simp add: register_defs split: option.splits)

lemma register_ok_inserts:
  assumes "fst (register e nm em pw d) = register_ok i"
  shows "\<exists>p \<in> set (participants (snd (register e nm em pw d))). email p = em"
proof -
  have "register_ok i \<noteq> register_error"
    by (simp add: register_ok_def register_error_def respond_def)
  with assms show ?thesis
    by (auto simp add: register_defs split: option.splits if_splits)
qed

text \<open>
  C7, as stated, fails: registering Ann's email again gives no error of its own. The
  response is the one of the \<^verbatim>\<open>catch\<close>, and a registration with a new email whose
  mail is rejected gets exactly the same response.
\<close>

theorem register_duplicate_counterexample:
  "map email (participants (conference 1 [])) = [''ann@x.com'', ''bob@x.com''] \<and>
   fst (register (services True) ''Bob'' ''ann@x.com'' ''pw2'' (conference 1 []))
     = fst (register (services False) ''Cat'' ''cat@x.com'' ''pw3'' (conference 1 [])) \<and>
   body (fst (register (services True) ''Bob'' ''ann@x.com'' ''pw2'' (conference 1 [])))
     = JObj [(''error'', JStr ''Error registering participant'')]"
  by (simp add: register_defs services_def example_defs register_error_def respond_def)

text \<open>
  C7, amended. A registration whose email a participant already holds answers the
  general error of the handler (status 500, ``Error registering participant'') and
  leaves the store unchanged; in particular so does a registration that follows a
  successful one with the same email.
\<close>

theorem register_same_email:
  "((\<exists>p \<in> set (participants d). email p = em) \<longrightarrow>
      register e nm em pw d = (register_error, d)) \<and>
   (fst (register e1 nm1 em pw1 d) = register_ok i \<longrightarrow>
      register e2 nm2 em pw2 (snd (register e1 nm1 em pw1 d))
        = (register_error, snd (register e1 nm1 em pw1 d)))"
  using register_ok_inserts [of e1 nm1 em pw1 d i]
  by (simp add: register_duplicate)

theorem register_same_email_witness:
  "(\<exists>p \<in> set (participants (conference 1 [])). email p = ''ann@x.com'') \<and>
   register (services True) ''Bob'' ''ann@x.com'' ''pw2'' (conference 1 [])
     = (register_error, conference 1 []) \<and>
   fst (register (services True) ''Ann'' ''ann@x.com'' ''pw'' empty_store) = register_ok 1 \<and>
   register (services True) ''Bob'' ''ann@x.com'' ''pw2''
       (snd (register (services True) ''Ann'' ''ann@x.com'' ''pw'' empty_store))
     = (register_error, snd (register (services True) ''Ann'' ''ann@x.com'' ''pw'' empty_store))"
proof -
  have h1: "\<exists>p \<in> set (participants (conference 1 [])). email p = ''ann@x.com''"
    by (simp add: example_defs)
  have h2: "fst (register (services True) ''Ann'' ''ann@x.com'' ''pw'' empty_store) = register_ok 1"
    by (simp add: register_defs services_def empty_store_def)
  from register_same_email [of "conference 1 []" "''ann@x.com''" "services True" "''Bob''" "''pw2''"]
    register_same_email [of empty_store "''ann@x.com''" "services True" "''Ann''" "''pw''"
      "services True" "''Ann''" "''pw''" 1 "services True" "''Bob''" "''pw2''"] h1 h2
  show ?thesis by simp
qed

text \<open>
  C8, as stated, fails: Cat's row is inserted, the mail is rejected, and the response
  is the error of status 500, not a success.
\<close>

theorem register_mail_failure_counterexample:
  "fst (register (services False) ''Cat'' ''cat@x.com'' ''pw3'' (conference 1 [])) = register_error \<and>
   status register_error = 500 \<and>
   map email (participants (snd (register (services False) ''Cat'' ''cat@x.com'' ''pw3'' (conference 1 []))))
     = [''ann@x.com'', ''bob@x.com'', ''cat@x.com'']"
  by (simp add: register_defs services_def example_defs register_error_def respond_def)

text \<open>
  C8, amended. When hashing and QR encoding answer, the row is inserted and the mail
  is rejected, the new participant stays in the table, and the call answers the general
  error of the handler (status 500, ``Error registering participant'').
\<close>

theorem register_mail_failure:
  assumes "bcrypt_hash e pw = Some h" "toDataURL e (nm @ [CHR 0x0A] @ em) = Some qr"
    "\<forall>p \<in> set (participants d). email p \<noteq> em \<and> qr_code p \<noteq> qr"
    "\<not> sendMail e (qr_mail em qr)"
  shows "fst (register e nm em pw d) = register_error \<and>
         participants (snd (register e nm em pw d))
           = participants d @ [\<lparr>participant_id = participants_auto_increment d, name = nm,
                                 email = em, organization = None, password_hash = h,
                                 qr_code = qr, sessions_registered = None\<rparr>]"
  using assms by (auto simp add: register_defs)

theorem register_mail_failure_witness:
  "bcrypt_hash (services False) ''pw3'' = Some ''$2b$10$pw3'' \<and>
   toDataURL (services False) (''Cat'' @ [CHR 0x0A] @ ''cat@x.com'')
     = Some (''data:image/png;base64,'' @ ''Cat'' @ [CHR 0x0A] @ ''cat@x.com'') \<and>
   map email (participants (conference 1 [])) = [''ann@x.com'', ''bob@x.com''] \<and>
   map qr_code (participants (conference 1 []))
     = [''data:image/png;base64,ann'', ''data:image/png;base64,bob''] \<and>
   \<not> sendMail (services False)
        (qr_mail ''cat@x.com'' (''data:image/png;base64,'' @ ''Cat'' @ [CHR 0x0A] @ ''cat@x.com'')) \<and>
   fst (register (services False) ''Cat'' ''cat@x.com'' ''pw3'' (conference 1 [])) = register_error \<and>
   map name (participants (snd (register (services False) ''Cat'' ''cat@x.com'' ''pw3'' (conference 1 []))))
     = [''Ann'', ''Bob'', ''Cat'']"
proof -
  let ?qr = "''data:image/png;base64,'' @ ''Cat'' @ [CHR 0x0A] @ ''cat@x.com''"
  have h1: "bcrypt_hash (services False) ''pw3'' = Some ''$2b$10$pw3''"
    by (simp add: services_def)
  have h2: "toDataURL (services False) (''Cat'' @ [CHR 0x0A] @ ''cat@x.com'') = Some ?qr"
    by (simp add: services_def)
  have h3: "\<forall>p \<in> set (participants (conference 1 [])). email p \<noteq> ''cat@x.com'' \<and> qr_code p \<noteq> ?qr"
    by (simp add: example_defs)
  have h4: "\<not> sendMail (services False) (qr_mail ''cat@x.com'' ?qr)"
    by (simp add: services_def)
  have names: "map name (participants (conference 1 [])) = [''Ann'', ''Bob'']"
    by (simp add: example_defs)
  have emails: "map email (participants (conference 1 [])) = [''ann@x.com'', ''bob@x.com'']"
    and codes: "map qr_code (participants (conference 1 []))
                  = [''data:image/png;base64,ann'', ''data:image/png;base64,bob'']"
    by (simp_all add: example_defs)
  from register_mail_failure [OF h1 h2 h3 h4] h1 h2 h4 names emails codes show ?thesis
    by simp
qed

end
